theory Spec2Isabelle
  imports
    Main
    "HOL-Library.Word"
    "HOL-Library.Sublist"
    "HOL-Library.Multiset"
    "HOL-Library.Product_Lexorder"
    "HOL-Library.List_Lexorder"
begin

section \<open>JavaScript strings\<close>

text \<open>
  A JavaScript string is a sequence of UTF-16 code units. String equality (\<open>===\<close>,
  \<open>!==\<close>) is equality of these sequences, and the empty string is the only falsy one.
  The literals of the source are ASCII, written here as \<open>lit ''...''\<close>.
\<close>

type_synonym jschar = "16 word"
type_synonym jsstring = "jschar list"

definition lit :: "string \<Rightarrow> jsstring" where
  "lit s = map of_char s"

text \<open>
  \<open>String.prototype.trim\<close> removes white space and line terminators from both ends:
  TAB, LF, VT, FF, CR, SP, NBSP, the other space separators of Unicode (U+1680,
  U+2000 to U+200A, U+202F, U+205F, U+3000), LS, PS and the byte order mark U+FEFF.
\<close>

definition isWhiteSpace :: "jschar \<Rightarrow> bool" where
  "isWhiteSpace c \<longleftrightarrow>
     c = 0x0009 \<or> c = 0x000A \<or> c = 0x000B \<or> c = 0x000C \<or> c = 0x000D \<or> c = 0x0020 \<or>
     c = 0x00A0 \<or> c = 0x1680 \<or> (0x2000 \<le> c \<and> c \<le> 0x200A) \<or> c = 0x2028 \<or> c = 0x2029 \<or>
     c = 0x202F \<or> c = 0x205F \<or> c = 0x3000 \<or> c = 0xFEFF"

definition trim :: "jsstring \<Rightarrow> jsstring" where
  "trim s = rev (dropWhile isWhiteSpace (rev (dropWhile isWhiteSpace s)))"

text \<open>
  \<open>s.replace(pat, rep)\<close> with a string pattern replaces the first occurrence of
  \<open>pat\<close> in \<open>s\<close>, scanning from the left, and returns \<open>s\<close> when there is none.
  (The replacement used by the source has no \<open>$\<close> pattern.)
\<close>

fun replace :: "jsstring \<Rightarrow> jsstring \<Rightarrow> jsstring \<Rightarrow> jsstring" where
  "replace pat rep [] = (if pat = [] then rep else [])"
| "replace pat rep (c # cs) =
     (if prefix pat (c # cs) then rep @ drop (length pat) (c # cs)
      else c # replace pat rep cs)"

text \<open>
  The truthiness test \<open>if (selectedPath)\<close> on a value of type
  \<open>string | null | undefined\<close>: \<open>null\<close>, \<open>undefined\<close> and the empty string are
  falsy. \<open>truthy\<close> returns the string when the test passes.
\<close>

fun truthy :: "jsstring option \<Rightarrow> jsstring option" where
  "truthy None = None"
| "truthy (Some s) = (if s = [] then None else Some s)"

section \<open>The component: ClaudeVersionSelector.tsx\<close>

text \<open>
  Modelled from the spec: the type \<open>ClaudeInstallation\<close> is imported from
  \<open>@/lib/api\<close>, which is not among the sources. Its fields are the three of the
  spec's data model, the ones the component reads and writes: \<open>path\<close>, the optional
  \<open>version\<close> and the \<open>source\<close> tag (a string in the component).
\<close>

record installation =
  path :: jsstring
  version :: "jsstring option"
  source :: jsstring

text \<open>
  What a rejected promise carries: \<open>err instanceof Error ? err.message : fallback\<close>
  tells an \<open>Error\<close> object with its message from any other thrown value.
\<close>

datatype js_thrown = JsError jsstring | NonError

fun errorMessage :: "js_thrown \<Rightarrow> jsstring \<Rightarrow> jsstring" where
  "errorMessage (JsError message) fallback = message"
| "errorMessage NonError fallback = fallback"

text \<open>
  The calls that leave the component: the two requests to the backend
  (\<open>api.listClaudeInstallations\<close>, \<open>api.setClaudeBinaryPath\<close>) and the \<open>onSelect\<close>
  callback of the props. They are recorded in order in the field \<open>calls\<close>. The
  callback is taken to return normally.
\<close>

datatype call =
    ListClaudeInstallations
  | SetClaudeBinaryPath jsstring
  | OnSelect installation

text \<open>The six \<open>useState\<close> cells of the component, and the log of outgoing calls.\<close>

record component =
  installations :: "installation list"
  loading :: bool
  error :: "jsstring option"
  selectedInstallation :: "installation option"
  manualPath :: jsstring
  isValidatingManualPath :: bool
  calls :: "call list"

definition initial :: component where
  "initial =
     \<lparr>installations = [], loading = True, error = None, selectedInstallation = None,
      manualPath = [], isValidatingManualPath = False, calls = []\<rparr>"

text \<open>
  The effect on \<open>[selectedPath, installations]\<close> (lines 68 to 76): when the prop is
  truthy and the list is not empty, the first entry with that path becomes the selected one.
\<close>

definition syncSelectedPath :: "jsstring option \<Rightarrow> component \<Rightarrow> component" where
  "syncSelectedPath selectedPath st =
     (case truthy selectedPath of
        None \<Rightarrow> st
      | Some sp \<Rightarrow>
          if length (installations st) > 0 then
            (case find (\<lambda>i. path i = sp) (installations st) of
               Some found \<Rightarrow> st\<lparr>selectedInstallation := Some found\<rparr>
             | None \<Rightarrow> st)
          else st)"

text \<open>
  \<open>loadInstallations\<close> (lines 78 to 113). The parameters are the \<open>selectedPath\<close> prop
  and the outcome of \<open>await api.listClaudeInstallations()\<close>: \<open>Inr\<close> the list it
  resolves to, \<open>Inl\<close> the value it rejects with. The \<open>catch\<close> block takes every
  rejection, and the \<open>finally\<close> block runs on both paths.
\<close>

definition manualEntry :: "jsstring \<Rightarrow> installation" where
  "manualEntry p = \<lparr>path = p, version = None, source = lit ''manual''\<rparr>"

definition loadInstallations ::
  "jsstring option \<Rightarrow> js_thrown + installation list \<Rightarrow> component \<Rightarrow> component" where
  "loadInstallations selectedPath response st0 =
     (let st1 = st0\<lparr>loading := True, error := None,
                     calls := calls st0 @ [ListClaudeInstallations]\<rparr>;
          st4 =
            (case response of
               Inl err \<Rightarrow>
                 st1\<lparr>error := Some (errorMessage err (lit ''Failed to load Claude installations''))\<rparr>
             | Inr foundInstallations \<Rightarrow>
                 (let st2 = st1\<lparr>installations := foundInstallations\<rparr> in
                  case truthy selectedPath of
                    Some sp \<Rightarrow>
                      (case find (\<lambda>i. path i = sp) foundInstallations of
                         Some found \<Rightarrow> st2\<lparr>selectedInstallation := Some found\<rparr>
                       | None \<Rightarrow>
                           (let manualInstallation = manualEntry sp in
                            st2\<lparr>installations := manualInstallation # installations st2,
                                selectedInstallation := Some manualInstallation\<rparr>))
                  | None \<Rightarrow>
                      if length foundInstallations > 0 then
                        st2\<lparr>selectedInstallation := Some (foundInstallations ! 0),
                            calls := calls st2 @ [OnSelect (foundInstallations ! 0)]\<rparr>
                      else st2))
      in st4\<lparr>loading := False\<rparr>)"

text \<open>\<open>handleSelect\<close> (lines 115 to 118).\<close>

definition handleSelect :: "installation \<Rightarrow> component \<Rightarrow> component" where
  "handleSelect inst st =
     st\<lparr>selectedInstallation := Some inst, calls := calls st @ [OnSelect inst]\<rparr>"

text \<open>
  \<open>addManualInstallation\<close> (lines 120 to 150). The first parameter is the backend's
  answer to \<open>await api.setClaudeBinaryPath(p)\<close>: \<open>None\<close> when the promise resolves,
  \<open>Some err\<close> when it rejects with \<open>err\<close>. The early \<open>return\<close> is before the
  \<open>try\<close>, so the \<open>finally\<close> block does not run on it.
\<close>

definition addManualInstallation ::
  "(jsstring \<Rightarrow> js_thrown option) \<Rightarrow> jsstring \<Rightarrow> component \<Rightarrow> component" where
  "addManualInstallation setClaudeBinaryPath p st0 =
     (if trim p = [] then st0
      else
        (let st1 = st0\<lparr>isValidatingManualPath := True,
                        calls := calls st0 @ [SetClaudeBinaryPath (trim p)]\<rparr>;
             st2 =
               (case setClaudeBinaryPath (trim p) of
                  None \<Rightarrow>
                    (let manualInstallation = manualEntry (trim p) in
                     st1\<lparr>installations :=
                           manualInstallation #
                             filter (\<lambda>inst. path inst \<noteq> trim p) (installations st1),
                         selectedInstallation := Some manualInstallation,
                         calls := calls st1 @ [OnSelect manualInstallation],
                         manualPath := []\<rparr>)
                | Some err \<Rightarrow>
                    st1\<lparr>error := Some (errorMessage err (lit ''Invalid Claude binary path''))\<rparr>)
         in st2\<lparr>isValidatingManualPath := False\<rparr>))"

text \<open>\<open>getSourceLabel\<close> (lines 185 to 197), the branches in the order of the source.\<close>

definition getSourceLabel :: "jsstring \<Rightarrow> jsstring" where
  "getSourceLabel src =
     (if src = lit ''which'' then lit ''System PATH''
      else if src = lit ''homebrew'' then lit ''Homebrew''
      else if src = lit ''system'' then lit ''System''
      else if prefix (lit ''nvm'') src then replace (lit ''nvm '') (lit ''NVM '') src
      else if src = lit ''local-bin'' then lit ''Local bin''
      else if src = lit ''claude-local'' then lit ''Claude local''
      else if src = lit ''npm-global'' then lit ''NPM global''
      else if src = lit ''yarn'' \<or> src = lit ''yarn-global'' then lit ''Yarn''
      else if src = lit ''bun'' then lit ''Bun''
      else if src = lit ''manual'' then lit ''Manual Selection''
      else src)"

text \<open>
  The card "No Claude Code installations found automatically" is rendered when
  \<open>installations.length === 0 && !loading\<close> (line 337).
\<close>

definition showsNoInstallationsFound :: "component \<Rightarrow> bool" where
  "showsNoInstallationsFound st \<longleftrightarrow> length (installations st) = 0 \<and> \<not> loading st"

text \<open>
  The error card is rendered under \<open>error && (...)\<close> (line 322): when the \<open>error\<close>
  cell holds a string that is not empty.
\<close>

definition showsError :: "component \<Rightarrow> bool" where
  "showsError st = (case error st of None \<Rightarrow> False | Some message \<Rightarrow> message \<noteq> [])"

text \<open>
  The component once it has rendered again after \<open>addManualInstallation\<close>. The
  updater of lines 136 to 139 returns a new array, so on the accepted path the effect on
  \<open>[selectedPath, installations]\<close> runs again, with the \<open>selectedPath\<close> prop of that
  render (the first parameter). On the early return and on the rejected path the list is
  not written and the effect does not run.
\<close>

definition afterManualPath ::
  "jsstring option \<Rightarrow> (jsstring \<Rightarrow> js_thrown option) \<Rightarrow> jsstring \<Rightarrow> component \<Rightarrow> component" where
  "afterManualPath selectedPath setClaudeBinaryPath p st =
     (if trim p \<noteq> [] \<and> setClaudeBinaryPath (trim p) = None
      then syncSelectedPath selectedPath (addManualInstallation setClaudeBinaryPath p st)
      else addManualInstallation setClaudeBinaryPath p st)"

text \<open>The invariant of the candidate list: no two entries have the same \<open>path\<close> string.\<close>

definition pathsUnique :: "component \<Rightarrow> bool" where
  "pathsUnique st \<longleftrightarrow> distinct (map path (installations st))"

section \<open>Sample data\<close>

text \<open>Two discovered entries and an accepting backend, for the concrete instances below.\<close>

definition whichEntry :: installation where
  "whichEntry =
     \<lparr>path = lit ''/usr/bin/claude'', version = Some (lit ''1.0.17''), source = lit ''which''\<rparr>"

definition homebrewEntry :: installation where
  "homebrewEntry =
     \<lparr>path = lit ''/opt/homebrew/bin/claude'', version = Some (lit ''1.0.17''),
      source = lit ''homebrew''\<rparr>"

definition acceptsOnly :: "jsstring \<Rightarrow> jsstring \<Rightarrow> js_thrown option" where
  "acceptsOnly good q = (if q = good then None else Some (JsError (lit ''not executable'')))"

section \<open>Canonical paths\<close>

text \<open>
  The spec identifies two installations when their canonical (symlink-resolved) paths are
  equal. The component compares \<open>path\<close> strings and calls no resolver. To state the
  spec's identity, a file system is given as a table of symbolic links, each with the
  regular file it resolves to; a path that is no link is its own canonical path.
\<close>

definition canonical :: "(jsstring \<times> jsstring) list \<Rightarrow> jsstring \<Rightarrow> jsstring" where
  "canonical links p = (case map_of links p of Some target \<Rightarrow> target | None \<Rightarrow> p)"

section \<open>The discovery pass of the backend\<close>

text \<open>
  Modelled from the spec: the discovery pass behind \<open>api.listClaudeInstallations\<close>
  (enumerators, validator, deduplicator and ranker) is backend code that is not among the
  sources; the component only awaits its result. The definitions of this section follow
  sections 3, 4.1 to 4.3 and 5 of the spec.

  A \<open>source\<close> is one of the tags the data model lists (section 3), as a closed variant
  (section 9). The version-manager tag carries its two parameters: the name of the manager
  and the slot of the runtime version, counted from the most recently installed one
  (slot 0).
\<close>

datatype source_tag =
    SystemPath | Homebrew | System | VersionManager jsstring nat | LocalBin | EcosystemLocal
  | NpmGlobal | Yarn | YarnGlobal | Bun | Manual

text \<open>
  Modelled from the spec: the name the data model (section 3) gives each tag, and the list
  of those names. The version-manager tags share one name; their manager and slot are
  parameters. The tag of the PATH search is \<open>system-path\<close> in sections 3 and 4.3;
  sections 4.1 and 8 write \<open>source-path\<close> for it.
\<close>

fun source_name :: "source_tag \<Rightarrow> jsstring" where
  "source_name SystemPath = lit ''system-path''"
| "source_name Homebrew = lit ''homebrew''"
| "source_name System = lit ''system''"
| "source_name (VersionManager manager slot) = lit ''version-manager''"
| "source_name LocalBin = lit ''local-bin''"
| "source_name EcosystemLocal = lit ''ecosystem-local''"
| "source_name NpmGlobal = lit ''npm-global''"
| "source_name Yarn = lit ''yarn''"
| "source_name YarnGlobal = lit ''yarn-global''"
| "source_name Bun = lit ''bun''"
| "source_name Manual = lit ''manual''"


text \<open>
  Modelled from the spec: the two ways a validation fails (section 4.2); a timeout is an
  \<open>InvocationFailed\<close> (section 5). A validator answers with the failure, or with the
  version it extracted, which may be absent.
\<close>

datatype validation_error = NotExecutable | InvocationFailed

type_synonym validator = "jsstring \<Rightarrow> validation_error + jsstring option"

text \<open>
  Modelled from the spec: a validated candidate as the fan-in point collects it: the path,
  the version the validator extracted, the tag of the enumerator that returned it, and its
  position in the sequence that enumerator returned (the discovery order of section 4.3,
  which is a property of the environment, not of the arrival time).
\<close>

record candidate =
  cand_path :: jsstring
  cand_version :: "jsstring option"
  cand_source :: source_tag
  cand_position :: nat

text \<open>
  Modelled from the spec: what the pass collects from one environment (sections 4.1, 4.2
  and 7). The environment gives, for each tag, the sequence of paths the enumerator with
  that tag returns (empty when the source is not present); \<open>detected\<close> lists the tags
  of the enumerator instances that run, one instance per tag, and none for \<open>manual\<close>.
  A path that fails validation is left out; the others keep the tag of their enumerator
  and their position in its sequence.
\<close>

definition validated_from :: "validator \<Rightarrow> source_tag \<Rightarrow> nat \<times> jsstring \<Rightarrow> candidate list" where
  "validated_from validate tag ip =
     (case validate (snd ip) of
        Inl failure \<Rightarrow> []
      | Inr found_version \<Rightarrow>
          [\<lparr>cand_path = snd ip, cand_version = found_version, cand_source = tag,
            cand_position = fst ip\<rparr>])"

definition enumerator_candidates ::
  "validator \<Rightarrow> (source_tag \<Rightarrow> jsstring list) \<Rightarrow> source_tag \<Rightarrow> candidate list" where
  "enumerator_candidates validate env tag =
     concat (map (validated_from validate tag) (enumerate 0 (env tag)))"

definition candidates_of ::
  "(source_tag \<Rightarrow> jsstring list) \<Rightarrow> validator \<Rightarrow> source_tag list \<Rightarrow> candidate list" where
  "candidates_of env validate detected =
     concat (map (enumerator_candidates validate env)
       (remdups (filter (\<lambda>tag. tag \<noteq> Manual) detected)))"

text \<open>
  Modelled from the spec: the fixed total order over the tags of section 4.3, highest
  priority first: system-path, homebrew, system, version-manager entries (most recently
  installed runtime version first), local-bin, ecosystem-local, npm-global, the yarn
  family (yarn, then yarn-global), bun. To be total on the tags, the order takes two
  version-manager tags of one slot by the name of their manager. The ranker never sees
  \<open>manual\<close>; it is put last.
\<close>

fun source_priority :: "source_tag \<Rightarrow> nat \<times> nat \<times> jsstring" where
  "source_priority SystemPath = (0, 0, [])"
| "source_priority Homebrew = (1, 0, [])"
| "source_priority System = (2, 0, [])"
| "source_priority (VersionManager manager slot) = (3, slot, manager)"
| "source_priority LocalBin = (4, 0, [])"
| "source_priority EcosystemLocal = (5, 0, [])"
| "source_priority NpmGlobal = (6, 0, [])"
| "source_priority Yarn = (7, 0, [])"
| "source_priority YarnGlobal = (7, 1, [])"
| "source_priority Bun = (8, 0, [])"
| "source_priority Manual = (9, 0, [])"

text \<open>
  Modelled from the spec: candidates are ordered by source priority, then by discovery
  order (tuples and strings are compared lexicographically).
\<close>

definition rank_key :: "candidate \<Rightarrow> (nat \<times> nat \<times> jsstring) \<times> nat" where
  "rank_key c = (source_priority (cand_source c), cand_position c)"

text \<open>
  Modelled from the spec: the ranker sorts what has been collected, whatever order it
  arrived in. The sort is stable: two candidates with equal keys would keep their order
  of arrival.
\<close>

definition rank :: "candidate list \<Rightarrow> candidate list" where
  "rank arrived = sort_key rank_key arrived"

text \<open>
  Modelled from the spec: the deduplicator keeps, for each canonical path, the candidate
  of the highest-priority source, that is the first one of the ranked list, and drops the
  others silently.
\<close>

fun dedupe :: "(jsstring \<Rightarrow> jsstring) \<Rightarrow> candidate list \<Rightarrow> candidate list" where
  "dedupe canon [] = []"
| "dedupe canon (c # cs) =
     c # dedupe canon (filter (\<lambda>d. canon (cand_path d) \<noteq> canon (cand_path c)) cs)"

text \<open>
  Modelled from the spec: the resolution result of one pass, from the validated candidates
  in their order of arrival at the fan-in point.
\<close>

definition discover :: "(jsstring \<Rightarrow> jsstring) \<Rightarrow> candidate list \<Rightarrow> candidate list" where
  "discover canon arrived = dedupe canon (rank arrived)"

text \<open>
  The environment of the spec's scenario, with three more enumerators: the PATH search
  and the package-manager prefix return one path each; two version managers each hold a
  runtime version in slot 0; the local bin directory holds a binary that fails its
  version query. All other binaries validate to version 1.2.0.
\<close>

definition scenarioEnv :: "source_tag \<Rightarrow> jsstring list" where
  "scenarioEnv tag =
     (if tag = SystemPath then [lit ''/usr/bin/tool'']
      else if tag = Homebrew then [lit ''/opt/homebrew/bin/tool'']
      else if tag = VersionManager (lit ''nvm'') 0 then [lit ''/home/u/.nvm/v20/bin/tool'']
      else if tag = VersionManager (lit ''fnm'') 0 then [lit ''/home/u/.fnm/v20/bin/tool'']
      else if tag = LocalBin then [lit ''/home/u/.local/bin/tool'']
      else [])"

definition scenarioValidate :: validator where
  "scenarioValidate p =
     (if p = lit ''/home/u/.local/bin/tool'' then Inl InvocationFailed
      else Inr (Some (lit ''1.2.0'')))"

definition scenarioDetected :: "source_tag list" where
  "scenarioDetected =
     [Homebrew, VersionManager (lit ''nvm'') 0, LocalBin, SystemPath,
      VersionManager (lit ''fnm'') 0]"

definition pathCandidate :: candidate where
  "pathCandidate =
     \<lparr>cand_path = lit ''/usr/bin/tool'', cand_version = Some (lit ''1.2.0''),
      cand_source = SystemPath, cand_position = 0\<rparr>"

definition homebrewCandidate :: candidate where
  "homebrewCandidate =
     \<lparr>cand_path = lit ''/opt/homebrew/bin/tool'', cand_version = Some (lit ''1.2.0''),
      cand_source = Homebrew, cand_position = 0\<rparr>"

definition nvmCandidate :: candidate where
  "nvmCandidate =
     \<lparr>cand_path = lit ''/home/u/.nvm/v20/bin/tool'', cand_version = Some (lit ''1.2.0''),
      cand_source = VersionManager (lit ''nvm'') 0, cand_position = 0\<rparr>"

definition fnmCandidate :: candidate where
  "fnmCandidate =
     \<lparr>cand_path = lit ''/home/u/.fnm/v20/bin/tool'', cand_version = Some (lit ''1.2.0''),
      cand_source = VersionManager (lit ''fnm'') 0, cand_position = 0\<rparr>"

section \<open>Facts about the string operations\<close>

lemma trim_Nil_iff: "trim s = [] \<longleftrightarrow> list_all isWhiteSpace s"
proof
  assume "trim s = []"
  then have all: "\<forall>c \<in> set (dropWhile isWhiteSpace s). isWhiteSpace c"
    by (simp add: trim_def)
  have "dropWhile isWhiteSpace s = []"
  proof (rule ccontr)
    assume ne: "dropWhile isWhiteSpace s \<noteq> []"
    then have "\<not> isWhiteSpace (hd (dropWhile isWhiteSpace s))"
      by (rule hd_dropWhile)
    moreover have "hd (dropWhile isWhiteSpace s) \<in> set (dropWhile isWhiteSpace s)"
      using ne by simp
    ultimately show False using all by blast
  qed
  then show "list_all isWhiteSpace s"
    by (simp add: list_all_iff)
next
  assume "list_all isWhiteSpace s"
  then show "trim s = []"
    by (auto simp: trim_def list_all_iff dest: set_dropWhileD)
qed

lemma trim_decomposition:
  "s = takeWhile isWhiteSpace s @ trim s @
       rev (takeWhile isWhiteSpace (rev (dropWhile isWhiteSpace s)))"
proof -
  let ?d = "dropWhile isWhiteSpace s"
  have "?d = rev (rev ?d)" by simp
  also have "\<dots> = rev (takeWhile isWhiteSpace (rev ?d) @ dropWhile isWhiteSpace (rev ?d))"
    by (simp only: takeWhile_dropWhile_id)
  also have "\<dots> = trim s @ rev (takeWhile isWhiteSpace (rev ?d))"
    by (simp only: rev_append trim_def)
  finally have "?d = trim s @ rev (takeWhile isWhiteSpace (rev ?d))" .
  moreover have "s = takeWhile isWhiteSpace s @ ?d" by simp
  ultimately show ?thesis by metis
qed

lemma trim_surrounding:
  "\<exists>pre suf. s = pre @ trim s @ suf \<and> list_all isWhiteSpace pre \<and> list_all isWhiteSpace suf"
proof -
  have "list_all isWhiteSpace (takeWhile isWhiteSpace s)"
    by (simp add: list_all_iff) (meson set_takeWhileD)
  moreover have
    "list_all isWhiteSpace (rev (takeWhile isWhiteSpace (rev (dropWhile isWhiteSpace s))))"
    by (simp add: list_all_iff) (meson set_takeWhileD)
  ultimately show ?thesis using trim_decomposition [of s] by blast
qed

lemma trim_ends:
  assumes "trim s \<noteq> []"
  shows "\<not> isWhiteSpace (hd (trim s)) \<and> \<not> isWhiteSpace (last (trim s))"
proof -
  let ?d = "dropWhile isWhiteSpace s"
  let ?e = "dropWhile isWhiteSpace (rev ?d)"
  from assms have e: "?e \<noteq> []"
    by (simp only: trim_def rev_is_Nil_conv not_False_eq_True)
  then have "\<not> isWhiteSpace (hd ?e)" by (rule hd_dropWhile)
  moreover have "last (trim s) = hd ?e"
    by (simp only: trim_def last_rev)
  ultimately have l: "\<not> isWhiteSpace (last (trim s))" by simp
  have d: "?d \<noteq> []"
  proof
    assume "?d = []"
    then have "?e = []" by (simp only: rev.simps dropWhile.simps)
    with e show False by contradiction
  qed
  then have nd: "\<not> isWhiteSpace (hd ?d)" by (rule hd_dropWhile)
  have "takeWhile isWhiteSpace s @ ?d =
        takeWhile isWhiteSpace s @ (trim s @ rev (takeWhile isWhiteSpace (rev ?d)))"
    using trim_decomposition [of s] by (simp only: takeWhile_dropWhile_id)
  then have "?d = trim s @ rev (takeWhile isWhiteSpace (rev ?d))"
    by (simp only: same_append_eq)
  then have "hd ?d = hd (trim s)" using assms by (metis hd_append2)
  with nd l show ?thesis by simp
qed

section \<open>Facts about the search in the list\<close>

lemma find_path_Some:
  "sp \<in> path ` set found \<Longrightarrow>
   \<exists>i \<in> set found. path i = sp \<and> find (\<lambda>i. path i = sp) found = Some i"
  by (induction found) auto

lemma find_path_None:
  "sp \<notin> path ` set found \<Longrightarrow> find (\<lambda>i. path i = sp) found = None"
  by (induction found) auto

lemma find_filter_implied:
  "(\<And>x. P x \<Longrightarrow> Q x) \<Longrightarrow> find P (filter Q xs) = find P xs"
  by (induction xs) auto

section \<open>The selection once the component has rendered again\<close>

lemma syncSelectedPath_frame:
  "installations (syncSelectedPath selectedPath st) = installations st
   \<and> calls (syncSelectedPath selectedPath st) = calls st
   \<and> error (syncSelectedPath selectedPath st) = error st"
  by (simp add: syncSelectedPath_def split: option.split)

lemma selection_after_sync:
  assumes "installations st = m # rest" and "selectedInstallation st = Some m"
  shows "selectedInstallation (syncSelectedPath selectedPath st) =
     (case truthy selectedPath of
        None \<Rightarrow> Some m
      | Some sp \<Rightarrow>
          if path m = sp then Some m
          else (case find (\<lambda>inst. path inst = sp) rest of
                  Some kept \<Rightarrow> Some kept
                | None \<Rightarrow> Some m))"
  using assms by (simp add: syncSelectedPath_def split: option.split)

lemma afterManualPath_accepted:
  assumes "trim p \<noteq> []" and "setClaudeBinaryPath (trim p) = None"
  shows "installations (addManualInstallation setClaudeBinaryPath p st) =
           manualEntry (trim p) # filter (\<lambda>inst. path inst \<noteq> trim p) (installations st)"
    and "selectedInstallation (addManualInstallation setClaudeBinaryPath p st)
           = Some (manualEntry (trim p))"
    and "calls (addManualInstallation setClaudeBinaryPath p st) =
           calls st @ [SetClaudeBinaryPath (trim p), OnSelect (manualEntry (trim p))]"
    and "installations (afterManualPath selectedPath setClaudeBinaryPath p st)
           = installations (addManualInstallation setClaudeBinaryPath p st)"
    and "calls (afterManualPath selectedPath setClaudeBinaryPath p st)
           = calls (addManualInstallation setClaudeBinaryPath p st)"
    and "selectedInstallation (afterManualPath selectedPath setClaudeBinaryPath p st) =
           (case truthy selectedPath of
              None \<Rightarrow> Some (manualEntry (trim p))
            | Some sp \<Rightarrow>
                if sp = trim p then Some (manualEntry (trim p))
                else (case find (\<lambda>inst. path inst = sp) (installations st) of
                        Some kept \<Rightarrow> Some kept
                      | None \<Rightarrow> Some (manualEntry (trim p))))"
proof -
  let ?t = "trim p"
  let ?st' = "addManualInstallation setClaudeBinaryPath p st"
  let ?st'' = "afterManualPath selectedPath setClaudeBinaryPath p st"
  show list: "installations ?st' =
      manualEntry ?t # filter (\<lambda>inst. path inst \<noteq> ?t) (installations st)"
    and sel: "selectedInstallation ?st' = Some (manualEntry ?t)"
    and "calls ?st' = calls st @ [SetClaudeBinaryPath ?t, OnSelect (manualEntry ?t)]"
    using assms by (simp_all add: addManualInstallation_def Let_def)
  have settled: "?st'' = syncSelectedPath selectedPath ?st'"
    using assms by (simp add: afterManualPath_def)
  show "installations ?st'' = installations ?st'" and "calls ?st'' = calls ?st'"
    unfolding settled using syncSelectedPath_frame by blast+
  have kept: "find (\<lambda>inst. path inst = sp) (filter (\<lambda>inst. path inst \<noteq> ?t) (installations st))
      = find (\<lambda>inst. path inst = sp) (installations st)" if "sp \<noteq> ?t" for sp
    using that by (intro find_filter_implied) simp
  have "selectedInstallation ?st'' =
      (case truthy selectedPath of
         None \<Rightarrow> Some (manualEntry ?t)
       | Some sp \<Rightarrow>
           if path (manualEntry ?t) = sp then Some (manualEntry ?t)
           else (case find (\<lambda>inst. path inst = sp)
                        (filter (\<lambda>inst. path inst \<noteq> ?t) (installations st)) of
                   Some kept \<Rightarrow> Some kept
                 | None \<Rightarrow> Some (manualEntry ?t)))"
    unfolding settled using list sel by (rule selection_after_sync)
  also have "\<dots> =
      (case truthy selectedPath of
         None \<Rightarrow> Some (manualEntry ?t)
       | Some sp \<Rightarrow>
           if sp = ?t then Some (manualEntry ?t)
           else (case find (\<lambda>inst. path inst = sp) (installations st) of
                   Some kept \<Rightarrow> Some kept
                 | None \<Rightarrow> Some (manualEntry ?t)))"
    using kept by (auto simp: manualEntry_def split: option.split)
  finally show "selectedInstallation ?st'' =
      (case truthy selectedPath of
         None \<Rightarrow> Some (manualEntry ?t)
       | Some sp \<Rightarrow>
           if sp = ?t then Some (manualEntry ?t)
           else (case find (\<lambda>inst. path inst = sp) (installations st) of
                   Some kept \<Rightarrow> Some kept
                 | None \<Rightarrow> Some (manualEntry ?t)))" .
qed

section \<open>A manual path that the backend accepts\<close>

text \<open>
  C1 (as the code has it). Let \<open>t\<close> be the submitted string trimmed. When \<open>t\<close> is not
  empty and the backend accepts it, \<open>addManualInstallation\<close> builds the entry with
  \<open>path = t\<close>, no version and source \<open>manual\<close>; the new list is that entry followed by
  the old entries whose \<open>path\<close> string differs from \<open>t\<close>, in their old order; the
  handler writes the entry as the selected installation and passes it to \<open>onSelect\<close>,
  after the one request to the backend. So exactly one entry of the new list has the path
  string \<open>t\<close>, whatever the old list held. Paths are compared as strings: nothing
  resolves symbolic links.

  Once the component has rendered again, the list and the calls are the same, and the
  entry is still the selected one when the \<open>selectedPath\<close> prop of that render is
  falsy, is \<open>t\<close>, or is the path of no entry of the old list; when the prop is another
  path that the old list holds, the effect has selected the first entry with that path
  instead.
\<close>

theorem addManualInstallation_replaces_same_path:
  fixes selectedPath setClaudeBinaryPath p st
  defines "t \<equiv> trim p"
  defines "st' \<equiv> addManualInstallation setClaudeBinaryPath p st"
  defines "st'' \<equiv> afterManualPath selectedPath setClaudeBinaryPath p st"
  assumes "t \<noteq> []" and "setClaudeBinaryPath t = None"
  shows "path (manualEntry t) = t \<and> version (manualEntry t) = None
       \<and> source (manualEntry t) = lit ''manual''
       \<and> installations st' =
           manualEntry t # filter (\<lambda>inst. path inst \<noteq> t) (installations st)
       \<and> selectedInstallation st' = Some (manualEntry t)
       \<and> calls st' = calls st @ [SetClaudeBinaryPath t, OnSelect (manualEntry t)]
       \<and> filter (\<lambda>inst. path inst = t) (installations st') = [manualEntry t]
       \<and> installations st'' = installations st' \<and> calls st'' = calls st'
       \<and> selectedInstallation st'' =
           (case truthy selectedPath of
              None \<Rightarrow> Some (manualEntry t)
            | Some sp \<Rightarrow>
                if sp = t then Some (manualEntry t)
                else (case find (\<lambda>inst. path inst = sp) (installations st) of
                        Some kept \<Rightarrow> Some kept
                      | None \<Rightarrow> Some (manualEntry t)))"
proof -
  from assms have ok: "trim p \<noteq> []" "setClaudeBinaryPath (trim p) = None"
    by simp_all
  note m = afterManualPath_accepted
    [where p = p and setClaudeBinaryPath = setClaudeBinaryPath and st = st, OF ok,
     folded t_def st'_def]
  have entry: "path (manualEntry t) = t \<and> version (manualEntry t) = None
      \<and> source (manualEntry t) = lit ''manual''"
    by (simp add: manualEntry_def)
  have once: "filter (\<lambda>inst. path inst = t) (installations st') = [manualEntry t]"
    unfolding m(1) by (simp add: manualEntry_def)
  have settled: "installations st'' = installations st' \<and> calls st'' = calls st'
      \<and> selectedInstallation st'' =
           (case truthy selectedPath of
              None \<Rightarrow> Some (manualEntry t)
            | Some sp \<Rightarrow>
                if sp = t then Some (manualEntry t)
                else (case find (\<lambda>inst. path inst = sp) (installations st) of
                        Some kept \<Rightarrow> Some kept
                      | None \<Rightarrow> Some (manualEntry t)))"
    unfolding st''_def using m(4) [of selectedPath] m(5) [of selectedPath]
      m(6) [of selectedPath] by simp
  from entry m(1) m(2) m(3) once settled show ?thesis by simp
qed

text \<open>
  The theorem at a list that already holds the submitted path, found through
  \<open>which\<close>: the discovered entry is replaced by the manual one. With no
  \<open>selectedPath\<close> prop the manual entry stays selected; with the prop at the homebrew
  entry's path, that entry is the selected one after the render.
\<close>

theorem addManualInstallation_replaces_same_path_witness:
  "trim (lit ''/usr/bin/claude'') \<noteq> []
   \<and> acceptsOnly (lit ''/usr/bin/claude'') (trim (lit ''/usr/bin/claude'')) = None
   \<and> installations
       (addManualInstallation (acceptsOnly (lit ''/usr/bin/claude'')) (lit ''/usr/bin/claude'')
          (initial\<lparr>installations := [whichEntry, homebrewEntry]\<rparr>))
     = [manualEntry (lit ''/usr/bin/claude''), homebrewEntry]
   \<and> selectedInstallation
       (afterManualPath None (acceptsOnly (lit ''/usr/bin/claude'')) (lit ''/usr/bin/claude'')
          (initial\<lparr>installations := [whichEntry, homebrewEntry]\<rparr>))
     = Some (manualEntry (lit ''/usr/bin/claude''))
   \<and> selectedInstallation
       (afterManualPath (Some (lit ''/opt/homebrew/bin/claude''))
          (acceptsOnly (lit ''/usr/bin/claude'')) (lit ''/usr/bin/claude'')
          (initial\<lparr>installations := [whichEntry, homebrewEntry]\<rparr>))
     = Some homebrewEntry"
proof -
  let ?p = "lit ''/usr/bin/claude''"
  let ?hb = "lit ''/opt/homebrew/bin/claude''"
  let ?st = "initial\<lparr>installations := [whichEntry, homebrewEntry]\<rparr>"
  have t: "trim ?p = ?p"
    by (simp add: trim_def isWhiteSpace_def lit_def)
  have h1: "trim ?p \<noteq> []"
    by (simp add: t) (simp add: lit_def)
  have h2: "acceptsOnly ?p (trim ?p) = None"
    by (simp add: t acceptsOnly_def)
  have tr: "truthy (Some ?hb) = Some ?hb" by (simp add: lit_def)
  show ?thesis
    using h1 h2
      addManualInstallation_replaces_same_path
        [where p = ?p and setClaudeBinaryPath = "acceptsOnly ?p" and st = ?st
           and selectedPath = None, OF h1 h2]
      addManualInstallation_replaces_same_path
        [where p = ?p and setClaudeBinaryPath = "acceptsOnly ?p" and st = ?st
           and selectedPath = "Some ?hb", OF h1 h2]
    by (simp add: t tr initial_def whichEntry_def homebrewEntry_def) (simp add: lit_def)
qed

text \<open>
  C1 as the spec states it fails. The list holds \<open>/usr/bin/claude\<close>, found through
  \<open>which\<close>, a symbolic link to \<open>/opt/claude/bin/claude\<close>, and the \<open>selectedPath\<close>
  prop is that path. The user submits the target, with a leading blank. The stored path
  is not the submitted string (it is trimmed), the new list holds two entries for one
  canonical path, and after the render the selected installation is the discovered
  entry, not the manual one.
\<close>

theorem addManualInstallation_canonical_counterexample:
  "map path (installations
     (addManualInstallation (acceptsOnly (lit ''/opt/claude/bin/claude''))
        (lit '' /opt/claude/bin/claude'') (initial\<lparr>installations := [whichEntry]\<rparr>)))
     = [lit ''/opt/claude/bin/claude'', lit ''/usr/bin/claude'']
   \<and> map (canonical [(lit ''/usr/bin/claude'', lit ''/opt/claude/bin/claude'')] \<circ> path)
       (installations
         (addManualInstallation (acceptsOnly (lit ''/opt/claude/bin/claude''))
            (lit '' /opt/claude/bin/claude'') (initial\<lparr>installations := [whichEntry]\<rparr>)))
     = [lit ''/opt/claude/bin/claude'', lit ''/opt/claude/bin/claude'']
   \<and> lit ''/opt/claude/bin/claude'' \<noteq> lit '' /opt/claude/bin/claude''
   \<and> selectedInstallation
       (afterManualPath (Some (lit ''/usr/bin/claude''))
          (acceptsOnly (lit ''/opt/claude/bin/claude''))
          (lit '' /opt/claude/bin/claude'') (initial\<lparr>installations := [whichEntry]\<rparr>))
     = Some whichEntry"
proof -
  have t: "trim (lit '' /opt/claude/bin/claude'') = lit ''/opt/claude/bin/claude''"
    by (simp add: trim_def isWhiteSpace_def lit_def)
  have ne: "lit ''/opt/claude/bin/claude'' \<noteq> []"
    by (simp add: lit_def)
  have tr: "truthy (Some (lit ''/usr/bin/claude'')) = Some (lit ''/usr/bin/claude'')"
    by (simp add: lit_def)
  show ?thesis
    by (simp add: afterManualPath_def syncSelectedPath_def tr addManualInstallation_def t ne
        Let_def manualEntry_def initial_def canonical_def acceptsOnly_def whichEntry_def)
      (simp add: lit_def)
qed

section \<open>Reconciling the list with the persisted path\<close>

text \<open>
  C2. Let the \<open>selectedPath\<close> prop pass the truthiness test of line 86, with value
  \<open>sp\<close>, and let the backend return \<open>found\<close>. If some discovered entry has the path
  \<open>sp\<close>, the selected installation is the first such entry of \<open>found\<close> itself and the
  list is \<open>found\<close>, not extended. If none has, the list is \<open>found\<close> with the entry
  \<open>path = sp\<close>, no version, source \<open>manual\<close> in front, and that entry is the selected
  one.
\<close>

theorem loadInstallations_persisted_path:
  fixes selectedPath found st
  defines "st' \<equiv> loadInstallations selectedPath (Inr found) st"
  assumes "truthy selectedPath = Some sp"
  shows "(sp \<in> path ` set found \<longrightarrow>
            (\<exists>i \<in> set found. path i = sp \<and> selectedInstallation st' = Some i)
            \<and> selectedInstallation st' = find (\<lambda>i. path i = sp) found
            \<and> installations st' = found)
       \<and> (sp \<notin> path ` set found \<longrightarrow>
            installations st' = manualEntry sp # found
            \<and> selectedInstallation st' = Some (manualEntry sp)
            \<and> path (manualEntry sp) = sp \<and> version (manualEntry sp) = None
            \<and> source (manualEntry sp) = lit ''manual'')"
proof (intro conjI impI)
  assume "sp \<in> path ` set found"
  then obtain i where i: "i \<in> set found" "path i = sp"
      "find (\<lambda>i. path i = sp) found = Some i"
    using find_path_Some by blast
  then have sel: "selectedInstallation st' = Some i" and "installations st' = found"
    using assms by (simp_all add: loadInstallations_def Let_def)
  then show "\<exists>i \<in> set found. path i = sp \<and> selectedInstallation st' = Some i"
    and "selectedInstallation st' = find (\<lambda>i. path i = sp) found"
    and "installations st' = found"
    using i by auto
next
  assume "sp \<notin> path ` set found"
  then have "find (\<lambda>i. path i = sp) found = None" by (rule find_path_None)
  then show "installations st' = manualEntry sp # found"
    and "selectedInstallation st' = Some (manualEntry sp)"
    using assms by (simp_all add: loadInstallations_def Let_def)
qed (simp_all add: manualEntry_def)

text \<open>
  The theorem at a persisted path that discovery finds again, and at one that it does
  not find.
\<close>

theorem loadInstallations_persisted_path_witness:
  "truthy (Some (lit ''/opt/homebrew/bin/claude'')) = Some (lit ''/opt/homebrew/bin/claude'')
   \<and> selectedInstallation
       (loadInstallations (Some (lit ''/opt/homebrew/bin/claude''))
          (Inr [whichEntry, homebrewEntry]) initial) = Some homebrewEntry
   \<and> installations
       (loadInstallations (Some (lit ''/opt/homebrew/bin/claude''))
          (Inr [whichEntry, homebrewEntry]) initial) = [whichEntry, homebrewEntry]
   \<and> truthy (Some (lit ''/home/u/bin/claude'')) = Some (lit ''/home/u/bin/claude'')
   \<and> installations
       (loadInstallations (Some (lit ''/home/u/bin/claude''))
          (Inr [whichEntry, homebrewEntry]) initial)
     = [manualEntry (lit ''/home/u/bin/claude''), whichEntry, homebrewEntry]"
proof -
  let ?hb = "lit ''/opt/homebrew/bin/claude''"
  let ?own = "lit ''/home/u/bin/claude''"
  have h1: "truthy (Some ?hb) = Some ?hb" by (simp add: lit_def)
  have h2: "truthy (Some ?own) = Some ?own" by (simp add: lit_def)
  have m1: "?hb \<in> path ` set [whichEntry, homebrewEntry]"
    by (simp add: homebrewEntry_def)
  have m2: "?own \<notin> path ` set [whichEntry, homebrewEntry]"
    by (simp add: whichEntry_def homebrewEntry_def lit_def)
  have f: "find (\<lambda>i. path i = ?hb) [whichEntry, homebrewEntry] = Some homebrewEntry"
    by (simp add: whichEntry_def homebrewEntry_def lit_def)
  show ?thesis
    using h1 h2 m1 m2 f
      loadInstallations_persisted_path
        [of "Some ?hb" ?hb "[whichEntry, homebrewEntry]" initial, OF h1]
      loadInstallations_persisted_path
        [of "Some ?own" ?own "[whichEntry, homebrewEntry]" initial, OF h2]
    by simp
qed

section \<open>A manual path that the backend rejects\<close>

text \<open>
  What the handler does on every rejection. The selected installation and the candidate
  list are as before and \<open>onSelect\<close> is not called; the only cells written are
  \<open>error\<close> and the \<open>isValidatingManualPath\<close> flag, which ends false; the only call is
  the request itself, and the effect does not run. The \<open>error\<close> cell holds the message
  of the \<open>Error\<close> thrown, or "Invalid Claude binary path" for any other thrown value.
  The error card is rendered unless the rejection is an \<open>Error\<close> with an empty
  message.
\<close>

lemma addManualInstallation_rejected:
  fixes selectedPath setClaudeBinaryPath p st
  defines "st' \<equiv> addManualInstallation setClaudeBinaryPath p st"
  assumes "trim p \<noteq> []" and "setClaudeBinaryPath (trim p) = Some err"
  shows "selectedInstallation st' = selectedInstallation st
       \<and> installations st' = installations st
       \<and> error st' =
           Some (case err of JsError message \<Rightarrow> message
                 | NonError \<Rightarrow> lit ''Invalid Claude binary path'')
       \<and> st' = st\<lparr>error := error st', isValidatingManualPath := False,
                   calls := calls st @ [SetClaudeBinaryPath (trim p)]\<rparr>
       \<and> afterManualPath selectedPath setClaudeBinaryPath p st = st'
       \<and> showsError st' = (err \<noteq> JsError [])"
proof -
  have shown: "lit ''Invalid Claude binary path'' \<noteq> []" by (simp add: lit_def)
  show ?thesis
    using assms shown
    by (cases err)
      (simp_all add: addManualInstallation_def afterManualPath_def showsError_def Let_def)
qed


section \<open>The automatic pick\<close>

text \<open>
  C4. When the \<open>selectedPath\<close> prop fails the truthiness test (it is \<open>null\<close>,
  \<open>undefined\<close> or empty) and the backend returns a list that is not empty,
  \<open>loadInstallations\<close> selects the first entry and calls \<open>onSelect\<close> with it: after
  the request to the backend, the notification is the one further call.
\<close>

theorem loadInstallations_auto_pick:
  fixes selectedPath found st
  defines "st' \<equiv> loadInstallations selectedPath (Inr found) st"
  assumes "truthy selectedPath = None" and "found \<noteq> []"
  shows "selectedInstallation st' = Some (found ! 0)
       \<and> installations st' = found
       \<and> calls st' = calls st @ [ListClaudeInstallations, OnSelect (found ! 0)]"
  using assms by (simp add: loadInstallations_def Let_def)

text \<open>The theorem at two discovered entries and no persisted path.\<close>

theorem loadInstallations_auto_pick_witness:
  "truthy None = None \<and> [whichEntry, homebrewEntry] \<noteq> []
   \<and> selectedInstallation (loadInstallations None (Inr [whichEntry, homebrewEntry]) initial)
       = Some whichEntry
   \<and> calls (loadInstallations None (Inr [whichEntry, homebrewEntry]) initial)
       = [ListClaudeInstallations, OnSelect whichEntry]"
proof -
  have h1: "truthy None = None" by simp
  have h2: "[whichEntry, homebrewEntry] \<noteq> []" by simp
  show ?thesis
    using h1 h2
      loadInstallations_auto_pick [of None "[whichEntry, homebrewEntry]" initial, OF h1 h2]
    by (simp add: initial_def)
qed

section \<open>Paths are unique in the list\<close>

text \<open>
  C5. Let no two entries of the list have the same \<open>path\<close> string, and let the list
  that the backend returns, when it returns one, have pairwise different paths. Then
  the list is again free of equal paths after \<open>loadInstallations\<close> (the load itself and
  the entry synthesized for the persisted path), after \<open>addManualInstallation\<close>, and
  after \<open>handleSelect\<close>, which does not write the list.
\<close>

theorem pathsUnique_preserved:
  assumes "pathsUnique st"
    and "\<forall>found. response = Inr found \<longrightarrow> distinct (map path found)"
  shows "pathsUnique (loadInstallations selectedPath response st)
       \<and> pathsUnique (addManualInstallation setClaudeBinaryPath p st)
       \<and> pathsUnique (handleSelect inst st)"
proof (intro conjI)
  show "pathsUnique (loadInstallations selectedPath response st)"
  proof (cases response)
    case (Inl err)
    then show ?thesis using assms(1)
      by (simp add: loadInstallations_def pathsUnique_def Let_def)
  next
    case (Inr found)
    with assms(2) have d: "distinct (map path found)" by simp
    show ?thesis
    proof (cases "truthy selectedPath")
      case None
      then show ?thesis using Inr d
        by (cases found) (simp_all add: loadInstallations_def pathsUnique_def Let_def)
    next
      case (Some sp)
      show ?thesis
      proof (cases "sp \<in> path ` set found")
        case True
        then obtain i where "find (\<lambda>i. path i = sp) found = Some i"
          using find_path_Some by blast
        then show ?thesis using Inr Some d
          by (simp add: loadInstallations_def pathsUnique_def Let_def)
      next
        case False
        then have "find (\<lambda>i. path i = sp) found = None" by (rule find_path_None)
        then show ?thesis using Inr Some d False
          by (simp add: loadInstallations_def pathsUnique_def Let_def manualEntry_def)
      qed
    qed
  qed
next
  show "pathsUnique (addManualInstallation setClaudeBinaryPath p st)"
    using assms(1)
    by (auto simp: addManualInstallation_def pathsUnique_def Let_def manualEntry_def
        distinct_map_filter split: option.splits)
next
  show "pathsUnique (handleSelect inst st)"
    using assms(1) by (simp add: handleSelect_def pathsUnique_def)
qed

text \<open>
  The theorem at a list of two entries: a load that has to synthesize the persisted
  entry, and a manual submission of a path that is already listed.
\<close>

theorem pathsUnique_preserved_witness:
  "pathsUnique (initial\<lparr>installations := [whichEntry, homebrewEntry]\<rparr>)
   \<and> distinct (map path [whichEntry, homebrewEntry])
   \<and> pathsUnique
       (loadInstallations (Some (lit ''/home/u/bin/claude'')) (Inr [whichEntry, homebrewEntry])
          (initial\<lparr>installations := [whichEntry, homebrewEntry]\<rparr>))
   \<and> pathsUnique
       (addManualInstallation (acceptsOnly (lit ''/usr/bin/claude'')) (lit ''/usr/bin/claude'')
          (initial\<lparr>installations := [whichEntry, homebrewEntry]\<rparr>))"
proof -
  let ?st = "initial\<lparr>installations := [whichEntry, homebrewEntry]\<rparr>"
  have d: "distinct (map path [whichEntry, homebrewEntry])"
    by (simp add: whichEntry_def homebrewEntry_def lit_def)
  have h1: "pathsUnique ?st"
    using d by (simp add: pathsUnique_def)
  have h2: "\<forall>found. (Inr [whichEntry, homebrewEntry] :: js_thrown + installation list) = Inr found
              \<longrightarrow> distinct (map path found)"
    using d by simp
  show ?thesis
    using d h1 h2
      pathsUnique_preserved
        [of ?st "Inr [whichEntry, homebrewEntry]" "Some (lit ''/home/u/bin/claude'')"
            "acceptsOnly (lit ''/usr/bin/claude'')" "lit ''/usr/bin/claude''", OF h1 h2]
    by blast
qed

section \<open>Nothing discovered\<close>

text \<open>
  C6 (as the code has it). Let the list be empty before the load, as it is when the
  component mounts. When the request to the backend fails, the list stays empty, the
  message is in the \<open>error\<close> cell and the "no installations found" card is shown. When
  the backend returns no entry and the \<open>selectedPath\<close> prop is falsy, the list is
  empty, there is no error and the card is shown. When the backend returns no entry and
  the prop is truthy, the list holds exactly the entry synthesized for the persisted
  path, which is selected. In each case the load returns a state (nothing is thrown), and
  a manual path submitted next that the backend accepts is prepended and passed to
  \<open>onSelect\<close>. In the first two cases it is then the only entry and the selected one
  once the component has rendered again, whatever the \<open>selectedPath\<close> prop of that
  render. In the third case it is the selected one after the render unless the prop is
  still the persisted path and differs from the submitted one: then the effect has
  selected the synthesized entry again.
\<close>

theorem loadInstallations_nothing_found:
  fixes selectedPath response st setClaudeBinaryPath p selectedPathNow
  defines "st1 \<equiv> loadInstallations selectedPath response st"
  defines "st2 \<equiv> afterManualPath selectedPathNow setClaudeBinaryPath p st1"
  assumes "installations st = []"
  shows "(response = Inl err \<longrightarrow>
            installations st1 = [] \<and> showsNoInstallationsFound st1
            \<and> error st1 = Some (errorMessage err (lit ''Failed to load Claude installations''))
            \<and> selectedInstallation st1 = selectedInstallation st)
       \<and> (response = Inr [] \<and> truthy selectedPath = None \<longrightarrow>
            installations st1 = [] \<and> showsNoInstallationsFound st1 \<and> error st1 = None
            \<and> selectedInstallation st1 = selectedInstallation st)
       \<and> (response = Inr [] \<and> truthy selectedPath = Some sp \<longrightarrow>
            installations st1 = [manualEntry sp]
            \<and> selectedInstallation st1 = Some (manualEntry sp))
       \<and> ((response = Inl err \<or> response = Inr [] \<and> truthy selectedPath = None)
            \<and> trim p \<noteq> [] \<and> setClaudeBinaryPath (trim p) = None \<longrightarrow>
            installations st2 = [manualEntry (trim p)]
            \<and> selectedInstallation st2 = Some (manualEntry (trim p))
            \<and> calls st2 = calls st1 @
                 [SetClaudeBinaryPath (trim p), OnSelect (manualEntry (trim p))])
       \<and> (response = Inr [] \<and> truthy selectedPath = Some sp
            \<and> trim p \<noteq> [] \<and> setClaudeBinaryPath (trim p) = None \<longrightarrow>
            hd (installations st2) = manualEntry (trim p)
            \<and> calls st2 = calls st1 @
                 [SetClaudeBinaryPath (trim p), OnSelect (manualEntry (trim p))]
            \<and> selectedInstallation st2 =
                 (if truthy selectedPathNow = Some sp \<and> sp \<noteq> trim p
                  then Some (manualEntry sp) else Some (manualEntry (trim p))))"
proof (intro conjI impI)
  assume r: "response = Inl err"
  with assms(3) show "installations st1 = []" "showsNoInstallationsFound st1"
    "error st1 = Some (errorMessage err (lit ''Failed to load Claude installations''))"
    "selectedInstallation st1 = selectedInstallation st"
    by (simp_all add: st1_def loadInstallations_def Let_def showsNoInstallationsFound_def)
next
  assume r: "response = Inr [] \<and> truthy selectedPath = None"
  then show "installations st1 = []" "showsNoInstallationsFound st1" "error st1 = None"
    "selectedInstallation st1 = selectedInstallation st"
    by (simp_all add: st1_def loadInstallations_def Let_def showsNoInstallationsFound_def)
next
  assume r: "response = Inr [] \<and> truthy selectedPath = Some sp"
  then show "installations st1 = [manualEntry sp]"
    "selectedInstallation st1 = Some (manualEntry sp)"
    by (simp_all add: st1_def loadInstallations_def Let_def)
next
  assume a: "(response = Inl err \<or> response = Inr [] \<and> truthy selectedPath = None)
    \<and> trim p \<noteq> [] \<and> setClaudeBinaryPath (trim p) = None"
  then have ok: "trim p \<noteq> []" "setClaudeBinaryPath (trim p) = None" by simp_all
  have empty: "installations st1 = []"
    using a assms(3) by (auto simp: st1_def loadInstallations_def Let_def)
  note m = afterManualPath_accepted
    [where p = p and setClaudeBinaryPath = setClaudeBinaryPath and st = st1, OF ok]
  from m(1) m(4) [of selectedPathNow] empty
  show "installations st2 = [manualEntry (trim p)]" by (simp add: st2_def)
  from m(3) m(5) [of selectedPathNow]
  show "calls st2 = calls st1 @
      [SetClaudeBinaryPath (trim p), OnSelect (manualEntry (trim p))]"
    by (simp add: st2_def)
  from m(6) [of selectedPathNow] empty
  show "selectedInstallation st2 = Some (manualEntry (trim p))"
    by (simp add: st2_def split: option.split)
next
  assume a: "response = Inr [] \<and> truthy selectedPath = Some sp
    \<and> trim p \<noteq> [] \<and> setClaudeBinaryPath (trim p) = None"
  then have ok: "trim p \<noteq> []" "setClaudeBinaryPath (trim p) = None" by simp_all
  have one: "installations st1 = [manualEntry sp]"
    using a by (simp add: st1_def loadInstallations_def Let_def)
  note m = afterManualPath_accepted
    [where p = p and setClaudeBinaryPath = setClaudeBinaryPath and st = st1, OF ok]
  from m(1) m(4) [of selectedPathNow]
  show "hd (installations st2) = manualEntry (trim p)" by (simp add: st2_def)
  from m(3) m(5) [of selectedPathNow]
  show "calls st2 = calls st1 @
      [SetClaudeBinaryPath (trim p), OnSelect (manualEntry (trim p))]"
    by (simp add: st2_def)
  from m(6) [of selectedPathNow] one
  show "selectedInstallation st2 =
      (if truthy selectedPathNow = Some sp \<and> sp \<noteq> trim p
       then Some (manualEntry sp) else Some (manualEntry (trim p)))"
    by (auto simp: st2_def manualEntry_def split: option.split)
qed

text \<open>
  The theorem at the mounting state: a backend that fails, a backend that finds
  nothing with no persisted path, and one that finds nothing with a persisted path; each
  followed by a valid manual path. In the last case the prop of the next render is once
  the persisted path and once the submitted path.
\<close>

theorem loadInstallations_nothing_found_witness:
  "installations initial = []
   \<and> trim (lit ''/usr/bin/claude'') \<noteq> []
   \<and> acceptsOnly (lit ''/usr/bin/claude'') (trim (lit ''/usr/bin/claude'')) = None
   \<and> installations (loadInstallations None (Inl (JsError (lit ''backend down''))) initial) = []
   \<and> error (loadInstallations None (Inl (JsError (lit ''backend down''))) initial)
       = Some (lit ''backend down'')
   \<and> selectedInstallation
       (afterManualPath None (acceptsOnly (lit ''/usr/bin/claude'')) (lit ''/usr/bin/claude'')
          (loadInstallations None (Inl (JsError (lit ''backend down''))) initial))
       = Some (manualEntry (lit ''/usr/bin/claude''))
   \<and> truthy None = None
   \<and> installations (loadInstallations None (Inr []) initial) = []
   \<and> showsNoInstallationsFound (loadInstallations None (Inr []) initial)
   \<and> installations
       (afterManualPath None (acceptsOnly (lit ''/usr/bin/claude'')) (lit ''/usr/bin/claude'')
          (loadInstallations None (Inr []) initial))
       = [manualEntry (lit ''/usr/bin/claude'')]
   \<and> truthy (Some (lit ''/home/u/bin/claude'')) = Some (lit ''/home/u/bin/claude'')
   \<and> selectedInstallation
       (loadInstallations (Some (lit ''/home/u/bin/claude'')) (Inr []) initial)
       = Some (manualEntry (lit ''/home/u/bin/claude''))
   \<and> selectedInstallation
       (afterManualPath (Some (lit ''/home/u/bin/claude''))
          (acceptsOnly (lit ''/usr/bin/claude'')) (lit ''/usr/bin/claude'')
          (loadInstallations (Some (lit ''/home/u/bin/claude'')) (Inr []) initial))
       = Some (manualEntry (lit ''/home/u/bin/claude''))
   \<and> selectedInstallation
       (afterManualPath (Some (lit ''/usr/bin/claude''))
          (acceptsOnly (lit ''/usr/bin/claude'')) (lit ''/usr/bin/claude'')
          (loadInstallations (Some (lit ''/home/u/bin/claude'')) (Inr []) initial))
       = Some (manualEntry (lit ''/usr/bin/claude''))"
proof -
  let ?p = "lit ''/usr/bin/claude''"
  let ?own = "lit ''/home/u/bin/claude''"
  let ?down = "JsError (lit ''backend down'')"
  have h0: "installations initial = []" by (simp add: initial_def)
  have t: "trim ?p = ?p"
    by (simp add: trim_def isWhiteSpace_def lit_def)
  have h1: "trim ?p \<noteq> []"
    by (simp add: t) (simp add: lit_def)
  have h2: "acceptsOnly ?p (trim ?p) = None"
    by (simp add: t acceptsOnly_def)
  have h3: "truthy (Some ?own) = Some ?own" by (simp add: lit_def)
  have h4: "truthy (Some ?p) = Some ?p" by (simp add: lit_def)
  have ne: "?own \<noteq> ?p" by (simp add: lit_def)
  show ?thesis
    using h0 h1 h2 h3 h4 ne
      loadInstallations_nothing_found
        [where st = initial and response = "Inl ?down" and err = ?down
           and selectedPath = None and sp = ?own and selectedPathNow = None
           and setClaudeBinaryPath = "acceptsOnly ?p" and p = ?p, OF h0]
      loadInstallations_nothing_found
        [where st = initial and response = "Inr []" and err = ?down
           and selectedPath = None and sp = ?own and selectedPathNow = None
           and setClaudeBinaryPath = "acceptsOnly ?p" and p = ?p, OF h0]
      loadInstallations_nothing_found
        [where st = initial and response = "Inr []" and err = ?down
           and selectedPath = "Some ?own" and sp = ?own and selectedPathNow = "Some ?own"
           and setClaudeBinaryPath = "acceptsOnly ?p" and p = ?p, OF h0]
      loadInstallations_nothing_found
        [where st = initial and response = "Inr []" and err = ?down
           and selectedPath = "Some ?own" and sp = ?own and selectedPathNow = "Some ?p"
           and setClaudeBinaryPath = "acceptsOnly ?p" and p = ?p, OF h0]
    by (simp add: t)
qed

text \<open>
  C6 as the spec states it fails when a persisted path exists: with nothing discovered,
  the list is not empty after the load, it holds the entry synthesized for that path,
  and the "no installations found" card is not shown; and a valid manual path submitted
  next, the prop still being the persisted path, is not the selected installation after
  the render.
\<close>

theorem loadInstallations_nothing_found_counterexample:
  "installations (loadInstallations (Some (lit ''/home/u/bin/claude'')) (Inr []) initial)
     = [\<lparr>path = lit ''/home/u/bin/claude'', version = None, source = lit ''manual''\<rparr>]
   \<and> \<not> showsNoInstallationsFound
         (loadInstallations (Some (lit ''/home/u/bin/claude'')) (Inr []) initial)
   \<and> selectedInstallation
       (afterManualPath (Some (lit ''/home/u/bin/claude''))
          (acceptsOnly (lit ''/usr/bin/claude'')) (lit ''/usr/bin/claude'')
          (loadInstallations (Some (lit ''/home/u/bin/claude'')) (Inr []) initial))
     = Some \<lparr>path = lit ''/home/u/bin/claude'', version = None, source = lit ''manual''\<rparr>"
proof -
  have h: "truthy (Some (lit ''/home/u/bin/claude'')) = Some (lit ''/home/u/bin/claude'')"
    by (simp add: lit_def)
  have t: "trim (lit ''/usr/bin/claude'') = lit ''/usr/bin/claude''"
    by (simp add: trim_def isWhiteSpace_def lit_def)
  have ne: "lit ''/usr/bin/claude'' \<noteq> []"
    by (simp add: lit_def)
  show ?thesis
    by (simp add: afterManualPath_def syncSelectedPath_def addManualInstallation_def t ne
        acceptsOnly_def loadInstallations_def h Let_def manualEntry_def initial_def
        showsNoInstallationsFound_def) (simp add: lit_def)
qed

section \<open>The order of a discovery pass\<close>

lemma source_priority_inj: "source_priority a = source_priority b \<Longrightarrow> a = b"
  by (cases a; cases b) simp_all

lemma validated_from_member:
  assumes "c \<in> set (validated_from validate tag ip)"
  shows "cand_source c = tag" and "cand_position c = fst ip" and "cand_path c = snd ip"
    and "validate (snd ip) = Inr (cand_version c)"
  using assms by (auto simp: validated_from_def split: sum.splits)

lemma enumerator_candidates_member:
  assumes "c \<in> set (enumerator_candidates validate env tag)"
  shows "cand_source c = tag \<and> cand_position c < length (env tag)
       \<and> env tag ! cand_position c = cand_path c
       \<and> validate (cand_path c) = Inr (cand_version c)"
proof -
  from assms
  have "c \<in> (\<Union>ip \<in> set (enumerate 0 (env tag)). set (validated_from validate tag ip))"
    by (simp add: enumerator_candidates_def)
  then obtain ip where ip: "ip \<in> set (enumerate 0 (env tag))"
      and c: "c \<in> set (validated_from validate tag ip)"
    by blast
  obtain i p where eq: "ip = (i, p)" by (cases ip)
  with ip have i: "i < length (env tag)" and p: "env tag ! i = p"
    by (simp_all add: in_set_enumerate_eq)
  note m = validated_from_member [OF c, unfolded eq fst_conv snd_conv]
  from m(1) have "cand_source c = tag" .
  moreover from m(2) i have "cand_position c < length (env tag)" by simp
  moreover from m(2) m(3) p have "env tag ! cand_position c = cand_path c" by simp
  moreover from m(3) m(4) have "validate (cand_path c) = Inr (cand_version c)" by simp
  ultimately show ?thesis by simp
qed


lemma distinct_positions:
  "distinct (map fst ips) \<Longrightarrow>
   distinct (map cand_position (concat (map (validated_from validate tag) ips)))"
proof (induction ips)
  case Nil
  then show ?case by simp
next
  case (Cons ip ips)
  let ?rest = "map cand_position (concat (map (validated_from validate tag) ips))"
  have rest: "set ?rest \<subseteq> fst ` set ips"
  proof
    fix n
    assume "n \<in> set ?rest"
    then obtain c jp where "jp \<in> set ips" "c \<in> set (validated_from validate tag jp)"
        "n = cand_position c"
      by auto
    then show "n \<in> fst ` set ips"
      using validated_from_member(2) [of c validate tag jp] by simp
  qed
  from Cons.prems have fresh: "fst ip \<notin> fst ` set ips" and "distinct (map fst ips)"
    by simp_all
  then have d: "distinct ?rest" using Cons.IH by simp
  have split: "map cand_position (concat (map (validated_from validate tag) (ip # ips)))
      = map cand_position (validated_from validate tag ip) @ ?rest"
    by simp
  show ?case
  proof (cases "validate (snd ip)")
    case (Inl failure)
    then have "validated_from validate tag ip = []" by (simp add: validated_from_def)
    with d split show ?thesis by simp
  next
    case (Inr found_version)
    then have "map cand_position (validated_from validate tag ip) = [fst ip]"
      by (simp add: validated_from_def)
    moreover from rest fresh have "fst ip \<notin> set ?rest" by blast
    ultimately show ?thesis using d split by simp
  qed
qed

lemma distinct_enumerator_positions:
  "distinct (map cand_position (enumerator_candidates validate env tag))"
  unfolding enumerator_candidates_def
  by (rule distinct_positions) simp

lemma distinct_enumerator_keys:
  "distinct (map (\<lambda>c. (cand_source c, cand_position c))
     (enumerator_candidates validate env tag))"
proof -
  have "map (\<lambda>c. (cand_source c, cand_position c)) (enumerator_candidates validate env tag)
      = map (\<lambda>c. (tag, cand_position c)) (enumerator_candidates validate env tag)"
    by (rule map_cong) (auto dest: enumerator_candidates_member)
  also have "\<dots> = map (Pair tag) (map cand_position (enumerator_candidates validate env tag))"
    by simp
  finally show ?thesis
    using distinct_enumerator_positions [of validate env tag]
    by (simp add: distinct_map inj_on_def)
qed

lemma distinct_keys_of_tags:
  "distinct tags \<Longrightarrow>
   distinct (map (\<lambda>c. (cand_source c, cand_position c))
     (concat (map (enumerator_candidates validate env) tags)))"
proof (induction tags)
  case Nil
  then show ?case by simp
next
  case (Cons tag tags)
  let ?key = "\<lambda>c. (cand_source c, cand_position c)"
  let ?here = "map ?key (enumerator_candidates validate env tag)"
  let ?rest = "map ?key (concat (map (enumerator_candidates validate env) tags))"
  have "set ?here \<inter> set ?rest = {}"
  proof (rule ccontr)
    assume "set ?here \<inter> set ?rest \<noteq> {}"
    then obtain k where "k \<in> set ?here" and "k \<in> set ?rest" by blast
    then obtain c d other where c: "c \<in> set (enumerator_candidates validate env tag)"
        and d: "d \<in> set (enumerator_candidates validate env other)"
        and other: "other \<in> set tags" and k: "k = ?key c" "k = ?key d"
      by auto
    from enumerator_candidates_member [OF c] enumerator_candidates_member [OF d] k
    have "other = tag" by simp
    with other Cons.prems show False by simp
  qed
  moreover from Cons have "distinct ?rest" by simp
  moreover have "distinct ?here" by (rule distinct_enumerator_keys)
  ultimately show ?case by simp
qed

lemma distinct_candidate_keys:
  "distinct (map (\<lambda>c. (cand_source c, cand_position c)) (candidates_of env validate detected))"
  unfolding candidates_of_def by (rule distinct_keys_of_tags) simp

lemma rank_key_inj_on_candidates:
  "inj_on rank_key (set (candidates_of env validate detected))"
proof (rule inj_onI)
  fix x y
  assume x: "x \<in> set (candidates_of env validate detected)"
    and y: "y \<in> set (candidates_of env validate detected)"
    and k: "rank_key x = rank_key y"
  from k have "source_priority (cand_source x) = source_priority (cand_source y)"
    and "cand_position x = cand_position y"
    by (simp_all add: rank_key_def)
  then have "(cand_source x, cand_position x) = (cand_source y, cand_position y)"
    using source_priority_inj by simp
  moreover have "inj_on (\<lambda>c. (cand_source c, cand_position c))
      (set (candidates_of env validate detected))"
    using distinct_candidate_keys [of env validate detected] by (simp add: distinct_map)
  ultimately show "x = y" using x y by (meson inj_onD)
qed

lemma rank_of_arrival:
  assumes "mset arrived = mset (candidates_of env validate detected)"
  shows "rank arrived = rank (candidates_of env validate detected)"
  unfolding rank_def
proof (rule sort_key_inj_key_eq)
  show "mset arrived = mset (sort_key rank_key (candidates_of env validate detected))"
    using assms by simp
  have "set arrived = set (candidates_of env validate detected)"
    using assms by (rule mset_eq_setD)
  then show "inj_on rank_key (set arrived)"
    using rank_key_inj_on_candidates [of env validate detected] by simp
  show "sorted (map rank_key (sort_key rank_key (candidates_of env validate detected)))"
    by simp
qed

lemma set_dedupe_subset: "set (dedupe canon xs) \<subseteq> set xs"
  by (induction canon xs rule: dedupe.induct) auto


lemma sorted_dedupe: "sorted (map f xs) \<Longrightarrow> sorted (map f (dedupe canon xs))"
proof (induction canon xs rule: dedupe.induct)
  case (1 canon)
  then show ?case by simp
next
  case (2 canon c cs)
  let ?rest = "filter (\<lambda>d. canon (cand_path d) \<noteq> canon (cand_path c)) cs"
  from "2.prems" have "sorted (map f cs)" and le: "\<forall>d \<in> set cs. f c \<le> f d" by auto
  then have "sorted (map f ?rest)" by (simp add: sorted_filter)
  then have "sorted (map f (dedupe canon ?rest))" by (rule "2.IH")
  moreover have "\<forall>d \<in> set (dedupe canon ?rest). f c \<le> f d"
    using le set_dedupe_subset [of canon ?rest] by auto
  ultimately show ?case by simp
qed

lemma distinct_dedupe: "distinct (map (canon \<circ> cand_path) (dedupe canon xs))"
proof (induction canon xs rule: dedupe.induct)
  case (1 canon)
  then show ?case by simp
next
  case (2 canon c cs)
  let ?rest = "filter (\<lambda>d. canon (cand_path d) \<noteq> canon (cand_path c)) cs"
  have "canon (cand_path c) \<notin> (canon \<circ> cand_path) ` set (dedupe canon ?rest)"
    using set_dedupe_subset [of canon ?rest] by auto
  with "2.IH" show ?case by simp
qed

lemma scenario_candidates:
  "candidates_of scenarioEnv scenarioValidate scenarioDetected
     = [homebrewCandidate, nvmCandidate, pathCandidate, fnmCandidate]"
  by (simp add: candidates_of_def enumerator_candidates_def validated_from_def scenarioEnv_def
      scenarioValidate_def scenarioDetected_def homebrewCandidate_def nvmCandidate_def
      pathCandidate_def fnmCandidate_def enumerate_eq_zip) (simp add: lit_def)

lemma scenario_result:
  "discover (\<lambda>q. q) [homebrewCandidate, nvmCandidate, pathCandidate, fnmCandidate]
     = [pathCandidate, homebrewCandidate, fnmCandidate, nvmCandidate]"
  by (simp add: discover_def rank_def rank_key_def homebrewCandidate_def nvmCandidate_def
      pathCandidate_def fnmCandidate_def) (simp add: lit_def)


text \<open>
  On the code: the list the component holds after a load is the list the backend
  returned, in its order, with the synthesized entry in front when there is one.
\<close>

lemma installations_after_load:
  "installations (loadInstallations selectedPath (Inr found) st) =
     (case truthy selectedPath of
        None \<Rightarrow> found
      | Some sp \<Rightarrow> if sp \<in> path ` set found then found else manualEntry sp # found)"
proof (cases "truthy selectedPath")
  case None
  then show ?thesis by (simp add: loadInstallations_def Let_def)
next
  case (Some sp)
  show ?thesis
  proof (cases "sp \<in> path ` set found")
    case True
    then obtain i where "find (\<lambda>i. path i = sp) found = Some i"
      using find_path_Some by blast
    with Some True show ?thesis by (simp add: loadInstallations_def Let_def)
  next
    case False
    then have "find (\<lambda>i. path i = sp) found = None" by (rule find_path_None)
    with Some False show ?thesis by (simp add: loadInstallations_def Let_def)
  qed
qed

text \<open>
  C7 (on the discovery pass modelled from the spec). Fix an environment: the sequence of
  paths each enumerator returns, the validator's answers, and the enumerators that run.
  Let two passes collect the validated candidates of that environment, each in its own
  order of arrival. Then both passes return the same list, in the same order; the list is
  ordered by the fixed source priority and then by discovery order, and no two of its
  entries have the same canonical path. No two candidates of one environment have the
  same rank, since the tag and the position in the enumerator's sequence identify a
  candidate; so the stable sort leaves nothing to the order of arrival.
\<close>

theorem discover_independent_of_arrival:
  assumes "mset arrivedA = mset (candidates_of env validate detected)"
    and "mset arrivedB = mset (candidates_of env validate detected)"
  shows "discover canon arrivedA = discover canon arrivedB
       \<and> discover canon arrivedA = discover canon (candidates_of env validate detected)
       \<and> sorted (map rank_key (discover canon arrivedA))
       \<and> distinct (map (canon \<circ> cand_path) (discover canon arrivedA))"
proof -
  have a: "rank arrivedA = rank (candidates_of env validate detected)"
    using assms(1) by (rule rank_of_arrival)
  have b: "rank arrivedB = rank (candidates_of env validate detected)"
    using assms(2) by (rule rank_of_arrival)
  from a b have "discover canon arrivedA = discover canon arrivedB"
    and "discover canon arrivedA = discover canon (candidates_of env validate detected)"
    by (simp_all add: discover_def)
  moreover have "sorted (map rank_key (discover canon arrivedA))"
    unfolding discover_def by (rule sorted_dedupe) (simp add: rank_def)
  moreover have "distinct (map (canon \<circ> cand_path) (discover canon arrivedA))"
    unfolding discover_def by (rule distinct_dedupe)
  ultimately show ?thesis by simp
qed

text \<open>
  The theorem at the scenario's environment and two orders of arrival: both passes put
  the PATH candidate first, then the homebrew one, then the two version-manager
  candidates of slot 0 in the order of their managers' names; the binary that fails its
  version query is in neither.
\<close>

theorem discover_independent_of_arrival_witness:
  "mset [fnmCandidate, pathCandidate, nvmCandidate, homebrewCandidate]
     = mset (candidates_of scenarioEnv scenarioValidate scenarioDetected)
   \<and> mset [nvmCandidate, homebrewCandidate, fnmCandidate, pathCandidate]
     = mset (candidates_of scenarioEnv scenarioValidate scenarioDetected)
   \<and> discover (\<lambda>q. q) [fnmCandidate, pathCandidate, nvmCandidate, homebrewCandidate]
     = discover (\<lambda>q. q) [nvmCandidate, homebrewCandidate, fnmCandidate, pathCandidate]
   \<and> discover (\<lambda>q. q) [fnmCandidate, pathCandidate, nvmCandidate, homebrewCandidate]
     = [pathCandidate, homebrewCandidate, fnmCandidate, nvmCandidate]"
proof -
  have h1: "mset [fnmCandidate, pathCandidate, nvmCandidate, homebrewCandidate]
      = mset (candidates_of scenarioEnv scenarioValidate scenarioDetected)"
    by (simp add: scenario_candidates)
  have h2: "mset [nvmCandidate, homebrewCandidate, fnmCandidate, pathCandidate]
      = mset (candidates_of scenarioEnv scenarioValidate scenarioDetected)"
    by (simp add: scenario_candidates)
  have r: "discover (\<lambda>q. q) (candidates_of scenarioEnv scenarioValidate scenarioDetected)
      = [pathCandidate, homebrewCandidate, fnmCandidate, nvmCandidate]"
    by (simp only: scenario_candidates scenario_result)
  note w = discover_independent_of_arrival [where canon = "\<lambda>q. q", OF h1 h2]
  from w have e1: "discover (\<lambda>q. q) [fnmCandidate, pathCandidate, nvmCandidate, homebrewCandidate]
      = discover (\<lambda>q. q) [nvmCandidate, homebrewCandidate, fnmCandidate, pathCandidate]"
    by (rule conjunct1)
  from w have "discover (\<lambda>q. q) [fnmCandidate, pathCandidate, nvmCandidate, homebrewCandidate]
      = discover (\<lambda>q. q) (candidates_of scenarioEnv scenarioValidate scenarioDetected)"
    by (rule conjunct1 [OF conjunct2])
  then have e2: "discover (\<lambda>q. q) [fnmCandidate, pathCandidate, nvmCandidate, homebrewCandidate]
      = [pathCandidate, homebrewCandidate, fnmCandidate, nvmCandidate]"
    using r by (rule trans)
  from h1 h2 e1 e2 show ?thesis by (intro conjI)
qed

section \<open>The source tags of discovered installations\<close>





section \<open>The labels the component gives to source tags\<close>

text \<open>
  In the component the tag is a string. \<open>getSourceLabel\<close> has a label of its own for
  \<open>which\<close> (System PATH), \<open>homebrew\<close>, \<open>system\<close>, \<open>local-bin\<close>, \<open>claude-local\<close>
  (Claude local), \<open>npm-global\<close>, \<open>yarn\<close> and \<open>yarn-global\<close> (both Yarn), \<open>bun\<close> and
  \<open>manual\<close>. In a tag that starts with \<open>nvm\<close> the first \<open>nvm\<close> followed by a blank is
  put in capitals, wherever it stands. Every other string, the spec's \<open>source-path\<close>,
  \<open>system-path\<close> and \<open>ecosystem-local\<close> among them, is shown as it is. The only tag
  the component itself writes is \<open>manual\<close> (lines 96 and 132).
\<close>

lemma getSourceLabel_fallthrough:
  assumes "src \<notin> lit ` {''which'', ''homebrew'', ''system'', ''local-bin'', ''claude-local'',
            ''npm-global'', ''yarn'', ''yarn-global'', ''bun'', ''manual''}"
    and "\<not> prefix (lit ''nvm'') src"
  shows "getSourceLabel src = src"
  using assms by (simp add: getSourceLabel_def)

lemma getSourceLabel_tags:
  "getSourceLabel (lit ''which'') = lit ''System PATH''
   \<and> getSourceLabel (lit ''homebrew'') = lit ''Homebrew''
   \<and> getSourceLabel (lit ''system'') = lit ''System''
   \<and> getSourceLabel (lit ''nvm '' @ v) = lit ''NVM '' @ v
   \<and> getSourceLabel (lit ''local-bin'') = lit ''Local bin''
   \<and> getSourceLabel (lit ''claude-local'') = lit ''Claude local''
   \<and> getSourceLabel (lit ''npm-global'') = lit ''NPM global''
   \<and> getSourceLabel (lit ''yarn'') = lit ''Yarn''
   \<and> getSourceLabel (lit ''yarn-global'') = lit ''Yarn''
   \<and> getSourceLabel (lit ''bun'') = lit ''Bun''
   \<and> getSourceLabel (lit ''manual'') = lit ''Manual Selection''"
proof (intro conjI)
  show "getSourceLabel (lit ''which'') = lit ''System PATH''"
    by (simp add: getSourceLabel_def lit_def)
  show "getSourceLabel (lit ''homebrew'') = lit ''Homebrew''"
    by (simp add: getSourceLabel_def lit_def)
  show "getSourceLabel (lit ''system'') = lit ''System''"
    by (simp add: getSourceLabel_def lit_def)
  show "getSourceLabel (lit ''nvm '' @ v) = lit ''NVM '' @ v"
    by (simp add: getSourceLabel_def lit_def)
  show "getSourceLabel (lit ''local-bin'') = lit ''Local bin''"
    by (simp add: getSourceLabel_def lit_def)
  show "getSourceLabel (lit ''claude-local'') = lit ''Claude local''"
    by (simp add: getSourceLabel_def lit_def)
  show "getSourceLabel (lit ''npm-global'') = lit ''NPM global''"
    by (simp add: getSourceLabel_def lit_def)
  show "getSourceLabel (lit ''yarn'') = lit ''Yarn''"
    by (simp add: getSourceLabel_def lit_def)
  show "getSourceLabel (lit ''yarn-global'') = lit ''Yarn''"
    by (simp add: getSourceLabel_def lit_def)
  show "getSourceLabel (lit ''bun'') = lit ''Bun''"
    by (simp add: getSourceLabel_def lit_def)
  show "getSourceLabel (lit ''manual'') = lit ''Manual Selection''"
    by (simp add: getSourceLabel_def lit_def)
qed

lemma getSourceLabel_spec_names:
  "getSourceLabel (lit ''source-path'') = lit ''source-path''
   \<and> getSourceLabel (lit ''system-path'') = lit ''system-path''
   \<and> getSourceLabel (lit ''ecosystem-local'') = lit ''ecosystem-local''
   \<and> getSourceLabel (lit ''nvmx nvm y'') = lit ''nvmx NVM y''"
  by (simp add: getSourceLabel_def lit_def)

lemma component_writes_manual:
  "source (manualEntry p) = lit ''manual''
   \<and> source_name Manual = source (manualEntry p)"
  by (simp add: manualEntry_def)

section \<open>Selecting an entry of the list\<close>

text \<open>
  C9. For every Installation value, \<open>handleSelect\<close> sets the selected installation
  to exactly that value and passes it to \<open>onSelect\<close>. The candidate list, the error
  and every other cell are as before, and no request goes to the backend: the one new
  call is the notification. The handler has no failure outcome; it is a total function
  of the state.
\<close>

theorem handleSelect_sets_selection:
  "selectedInstallation (handleSelect inst st) = Some inst
   \<and> installations (handleSelect inst st) = installations st
   \<and> calls (handleSelect inst st) = calls st @ [OnSelect inst]
   \<and> handleSelect inst st =
       st\<lparr>selectedInstallation := Some inst, calls := calls st @ [OnSelect inst]\<rparr>"
  by (simp add: handleSelect_def)

section \<open>Blank input and trimming\<close>

text \<open>
  C10. When every character of the submitted string is white space (the empty string
  included), \<open>addManualInstallation\<close> returns the state it was given: no request is
  sent, and the list, the selected installation and the error are as before. For any
  other string \<open>p\<close>, \<open>trim p\<close> is \<open>p\<close> without a white-space prefix and a
  white-space suffix, it is not empty and neither starts nor ends with white space; the
  request to the backend carries \<open>trim p\<close>; when it is accepted, the selected
  installation and the head of the list are the manual entry with \<open>path = trim p\<close>,
  and when it is rejected the request is the only call.
\<close>

theorem addManualInstallation_blank_or_trimmed:
  fixes setClaudeBinaryPath p st
  defines "st' \<equiv> addManualInstallation setClaudeBinaryPath p st"
  shows "(list_all isWhiteSpace p \<longrightarrow> st' = st)
       \<and> (\<not> list_all isWhiteSpace p \<longrightarrow>
            (\<exists>pre suf. p = pre @ trim p @ suf
                \<and> list_all isWhiteSpace pre \<and> list_all isWhiteSpace suf)
            \<and> trim p \<noteq> []
            \<and> \<not> isWhiteSpace (hd (trim p)) \<and> \<not> isWhiteSpace (last (trim p))
            \<and> (setClaudeBinaryPath (trim p) = None \<longrightarrow>
                 calls st' = calls st @
                   [SetClaudeBinaryPath (trim p), OnSelect (manualEntry (trim p))]
                 \<and> selectedInstallation st' = Some (manualEntry (trim p))
                 \<and> hd (installations st') = manualEntry (trim p)
                 \<and> path (manualEntry (trim p)) = trim p)
            \<and> (setClaudeBinaryPath (trim p) \<noteq> None \<longrightarrow>
                 calls st' = calls st @ [SetClaudeBinaryPath (trim p)]))"
proof (intro conjI impI)
  assume "list_all isWhiteSpace p"
  then have "trim p = []" by (simp only: trim_Nil_iff)
  then show "st' = st" by (simp add: st'_def addManualInstallation_def)
next
  assume "\<not> list_all isWhiteSpace p"
  then have ne: "trim p \<noteq> []" by (simp only: trim_Nil_iff not_False_eq_True)
  then show "trim p \<noteq> []" .
  from ne show "\<not> isWhiteSpace (hd (trim p))" and "\<not> isWhiteSpace (last (trim p))"
    using trim_ends by blast+
  show "\<exists>pre suf. p = pre @ trim p @ suf
      \<and> list_all isWhiteSpace pre \<and> list_all isWhiteSpace suf"
    by (rule trim_surrounding)
  show "path (manualEntry (trim p)) = trim p" by (simp add: manualEntry_def)
  {
    assume "setClaudeBinaryPath (trim p) = None"
    with ne show "calls st' = calls st @
        [SetClaudeBinaryPath (trim p), OnSelect (manualEntry (trim p))]"
      and "selectedInstallation st' = Some (manualEntry (trim p))"
      and "hd (installations st') = manualEntry (trim p)"
      by (simp_all add: st'_def addManualInstallation_def Let_def)
  }
  {
    assume "setClaudeBinaryPath (trim p) \<noteq> None"
    with ne show "calls st' = calls st @ [SetClaudeBinaryPath (trim p)]"
      by (auto simp: st'_def addManualInstallation_def Let_def)
  }
qed

text \<open>
  The theorem at a string of two blanks and a tab, at an accepted path with blanks
  around it, and at a rejected path with a line feed after it.
\<close>

theorem addManualInstallation_blank_or_trimmed_witness:
  "list_all isWhiteSpace [0x20, 0x20, 0x09]
   \<and> addManualInstallation (acceptsOnly (lit ''/usr/bin/claude'')) [0x20, 0x20, 0x09]
       (initial\<lparr>installations := [homebrewEntry]\<rparr>)
       = initial\<lparr>installations := [homebrewEntry]\<rparr>
   \<and> \<not> list_all isWhiteSpace (lit ''  /usr/bin/claude '')
   \<and> trim (lit ''  /usr/bin/claude '') = lit ''/usr/bin/claude''
   \<and> acceptsOnly (lit ''/usr/bin/claude'') (trim (lit ''  /usr/bin/claude '')) = None
   \<and> selectedInstallation
       (addManualInstallation (acceptsOnly (lit ''/usr/bin/claude''))
          (lit ''  /usr/bin/claude '') (initial\<lparr>installations := [homebrewEntry]\<rparr>))
       = Some (manualEntry (lit ''/usr/bin/claude''))
   \<and> \<not> list_all isWhiteSpace (lit ''/tmp/not-a-file'' @ [0x0A])
   \<and> acceptsOnly (lit ''/usr/bin/claude'') (trim (lit ''/tmp/not-a-file'' @ [0x0A])) \<noteq> None
   \<and> calls
       (addManualInstallation (acceptsOnly (lit ''/usr/bin/claude''))
          (lit ''/tmp/not-a-file'' @ [0x0A]) (initial\<lparr>installations := [homebrewEntry]\<rparr>))
       = [SetClaudeBinaryPath (lit ''/tmp/not-a-file'')]"
proof -
  let ?v = "acceptsOnly (lit ''/usr/bin/claude'')"
  let ?st = "initial\<lparr>installations := [homebrewEntry]\<rparr>"
  have h1: "list_all isWhiteSpace [0x20, 0x20, 0x09]"
    by (simp add: isWhiteSpace_def)
  have h2: "\<not> list_all isWhiteSpace (lit ''  /usr/bin/claude '')"
    by (simp add: isWhiteSpace_def lit_def)
  have t2: "trim (lit ''  /usr/bin/claude '') = lit ''/usr/bin/claude''"
    by (simp add: trim_def isWhiteSpace_def lit_def)
  have h3: "?v (trim (lit ''  /usr/bin/claude '')) = None"
    by (simp add: t2 acceptsOnly_def)
  have h4: "\<not> list_all isWhiteSpace (lit ''/tmp/not-a-file'' @ [0x0A])"
    by (simp add: isWhiteSpace_def lit_def)
  have t4: "trim (lit ''/tmp/not-a-file'' @ [0x0A]) = lit ''/tmp/not-a-file''"
    by (simp add: trim_def isWhiteSpace_def lit_def)
  have h5: "?v (trim (lit ''/tmp/not-a-file'' @ [0x0A])) \<noteq> None"
    by (simp add: t4 acceptsOnly_def) (simp add: lit_def)
  have c0: "calls ?st = []" by (simp add: initial_def)
  show ?thesis
    using h1 h2 h3 h4 h5 t2 t4 c0
      addManualInstallation_blank_or_trimmed [of "[0x20, 0x20, 0x09]" ?v ?st]
      addManualInstallation_blank_or_trimmed [of "lit ''  /usr/bin/claude ''" ?v ?st]
      addManualInstallation_blank_or_trimmed [of "lit ''/tmp/not-a-file'' @ [0x0A]" ?v ?st]
    by simp
qed

section \<open>The effect on the selected path\<close>

text \<open>
  The handlers above are followed, in the component, by the effect of lines 68 to 76
  whenever the list has changed. After a load it writes nothing new. After an accepted
  manual path it writes nothing new when the \<open>selectedPath\<close> prop is falsy or is the
  submitted path; when the prop is another path that the list holds, the effect selects
  that entry again.
\<close>

lemma syncSelectedPath_after_load:
  "syncSelectedPath selectedPath (loadInstallations selectedPath (Inr found) st)
     = loadInstallations selectedPath (Inr found) st"
proof (cases "truthy selectedPath")
  case None
  then show ?thesis by (simp add: syncSelectedPath_def)
next
  case (Some sp)
  show ?thesis
  proof (cases "sp \<in> path ` set found")
    case True
    then obtain i where i: "i \<in> set found" "find (\<lambda>i. path i = sp) found = Some i"
      using find_path_Some by blast
    then have "found \<noteq> []" by auto
    with i Some show ?thesis
      by (simp add: syncSelectedPath_def loadInstallations_def Let_def)
  next
    case False
    then have "find (\<lambda>i. path i = sp) found = None" by (rule find_path_None)
    with Some show ?thesis
      by (simp add: syncSelectedPath_def loadInstallations_def Let_def manualEntry_def)
  qed
qed

lemma syncSelectedPath_after_addManualInstallation:
  assumes "truthy selectedPath = None \<or> truthy selectedPath = Some (trim p)"
    and "trim p \<noteq> []" and "setClaudeBinaryPath (trim p) = None"
  shows "syncSelectedPath selectedPath (addManualInstallation setClaudeBinaryPath p st)
     = addManualInstallation setClaudeBinaryPath p st"
  using assms
  by (auto simp: syncSelectedPath_def addManualInstallation_def Let_def manualEntry_def)

lemma syncSelectedPath_other_entry:
  assumes "truthy selectedPath = Some sp" and "sp \<noteq> trim p"
    and "find (\<lambda>i. path i = sp) (installations st) = Some kept"
    and "trim p \<noteq> []" and "setClaudeBinaryPath (trim p) = None"
  shows "selectedInstallation
           (syncSelectedPath selectedPath (addManualInstallation setClaudeBinaryPath p st))
         = Some kept"
proof -
  have "find (\<lambda>i. path i = sp) (filter (\<lambda>inst. path inst \<noteq> trim p) (installations st))
      = find (\<lambda>i. path i = sp) (installations st)"
    using assms(2) by (intro find_filter_implied) simp
  with assms show ?thesis
    by (simp add: syncSelectedPath_def addManualInstallation_def Let_def manualEntry_def)
qed

end
